theory Spec2Isabelle
  imports Main "HOL-Library.Word"
begin

unbundle bit_operations_syntax

section \<open>Data model of package totpdb\<close>

text \<open>
  Go byte slices are lists of 8-bit words. A Go \<open>string\<close> is a sequence of bytes and is
  modelled by \<open>string\<close> (a list of 8-bit characters); the empty string is \<open>[]\<close>.
\<close>

type_synonym byte = "8 word"
type_synonym bytes = "byte list"

text \<open>
  The error values the package returns or passes on from its dependencies, and the run-time
  panics its slice expressions and library calls can raise.
  \<^item> \<open>ErrEntryExists\<close>, \<open>ErrEntryNotFound\<close>: the two package-level error variables;
  \<^item> \<open>KeySizeError n\<close>: \<open>aes.NewCipher\<close> on a key of \<open>n\<close> bytes, \<open>n\<close> not 16, 24 or 32;
  \<^item> \<open>ErrGCMBlockSize\<close>: \<open>cipher.NewGCM\<close> on a block cipher whose block is not 128 bits;
  \<^item> \<open>ErrCiphertextTooShort\<close>: \<open>fmt.Errorf("ciphertext too short")\<close> in \<open>Decrypt\<close>;
  \<^item> \<open>ErrOpen\<close>: the error of \<open>AEAD.Open\<close>, "cipher: message authentication failed";
  \<^item> \<open>EOF\<close>, \<open>ErrUnexpectedEOF\<close>: the errors of \<open>io.ReadFull\<close>;
  \<^item> \<open>ErrNotExist\<close>, \<open>ErrPermission\<close>: errors of \<open>os.ReadFile\<close> and \<open>os.WriteFile\<close>;
  \<^item> \<open>ErrCBOR\<close>: any error of the CBOR encoder or decoder;
  \<^item> \<open>PanicSliceBounds\<close>, \<open>PanicIndex\<close>, \<open>PanicNonceLength\<close>, \<open>PanicMakeSlice\<close>:
    run-time panics.
\<close>

datatype error =
    ErrEntryExists
  | ErrEntryNotFound
  | KeySizeError nat
  | ErrGCMBlockSize
  | ErrCiphertextTooShort
  | ErrOpen
  | EOF
  | ErrUnexpectedEOF
  | ErrNotExist
  | ErrPermission
  | ErrCBOR
  | PanicSliceBounds
  | PanicIndex
  | PanicNonceLength
  | PanicMakeSlice

text \<open>
  \<open>type TOTPEntry struct\<close>. \<open>Period\<close> is a \<open>uint64\<close>; \<open>Digits\<close> is a Go \<open>int\<close>, kept as
  its 64-bit two's complement representation.
\<close>

record TOTPEntry =
  Issuer :: string
  AccountName :: string
  Secret :: string
  Type :: string
  Period :: "64 word"
  Digits :: "64 word"
  Algorithm :: string
  URL :: string

text \<open>
  \<open>type TOTPData struct { Entries []TOTPEntry }\<close>. A Go slice is either \<open>nil\<close> or a
  sequence of elements; \<open>None\<close> is the \<open>nil\<close> slice, which \<open>AddEntry\<close> tests for. The
  capacity of the slice (\<open>defaultSize\<close>) cannot be observed through the package's
  operations and is not modelled.
\<close>

record TOTPData =
  Entries :: "TOTPEntry list option"

text \<open>The elements a \<open>range\<close> loop visits: none for the \<open>nil\<close> slice.\<close>

definition elems :: "TOTPData \<Rightarrow> TOTPEntry list" where
  "elems data = (case Entries data of None \<Rightarrow> [] | Some es \<Rightarrow> es)"

text \<open>
  \<open>*otp.Key\<close> belongs to the library github.com/pquerna/otp. The package reads a key only
  through its eight accessor methods, so a key is modelled by the values they return
  (\<open>kAlgorithm\<close> is \<open>k.Algorithm().String()\<close>, \<open>kDigits\<close> is \<open>int(k.Digits())\<close>).
\<close>

record otp_Key =
  kIssuer :: string
  kAccountName :: string
  kSecret :: string
  kType :: string
  kPeriod :: "64 word"
  kDigits :: "64 word"
  kAlgorithm :: string
  kURL :: string

section \<open>The record store\<close>

definition FromOTPKey :: "otp_Key \<Rightarrow> TOTPEntry" where
  "FromOTPKey k =
     \<lparr> Issuer = kIssuer k,
       AccountName = kAccountName k,
       Secret = kSecret k,
       Type = kType k,
       Period = kPeriod k,
       Digits = kDigits k,
       Algorithm = kAlgorithm k,
       URL = kURL k \<rparr>"

text \<open>
  The loop of \<open>FindEntry\<close>: \<open>ind\<close> is the index of the head of the entries not yet
  visited. The loop returns at the first entry whose account name is \<open>name\<close> and, when
  \<open>issuer\<close> is not empty, whose issuer is \<open>issuer\<close>. Falling off the end is the
  \<open>return -1, ErrEntryNotFound\<close> of the source.
\<close>

fun FindEntry_loop :: "TOTPEntry list \<Rightarrow> nat \<Rightarrow> string \<Rightarrow> string \<Rightarrow> error + nat" where
  "FindEntry_loop [] ind name issuer = Inl ErrEntryNotFound"
| "FindEntry_loop (entry # rest) ind name issuer =
     (if AccountName entry = name then
        (if issuer = [] then Inr ind
         else if Issuer entry = issuer then Inr ind
         else FindEntry_loop rest (Suc ind) name issuer)
      else FindEntry_loop rest (Suc ind) name issuer)"

definition FindEntry :: "TOTPData \<Rightarrow> string \<Rightarrow> string \<Rightarrow> error + nat" where
  "FindEntry data name issuer = FindEntry_loop (elems data) 0 name issuer"

text \<open>
  \<open>AddEntry\<close> mutates its receiver and returns an error or \<open>nil\<close>: the model returns the
  error (\<open>None\<close> for \<open>nil\<close>) and the receiver afterwards.
\<close>

definition AddEntry :: "TOTPData \<Rightarrow> otp_Key \<Rightarrow> error option \<times> TOTPData" where
  "AddEntry data key =
     (let ent = FromOTPKey key;
          data1 = (if Entries data = None then data\<lparr>Entries := Some []\<rparr> else data)
      in case FindEntry data1 (AccountName ent) (Issuer ent) of
           Inl err \<Rightarrow> (None, data1\<lparr>Entries := Some (elems data1 @ [ent])\<rparr>)
         | Inr ind \<Rightarrow> (Some ErrEntryExists, data1))"

text \<open>
  \<open>GetEntry\<close> indexes the slice with the index found; an index outside the slice would
  panic.
\<close>

definition GetEntry :: "TOTPData \<Rightarrow> string \<Rightarrow> string \<Rightarrow> error + TOTPEntry" where
  "GetEntry data name issuer =
     (case FindEntry data name issuer of
        Inl err \<Rightarrow> Inl err
      | Inr ind \<Rightarrow>
          if ind < length (elems data) then Inr (elems data ! ind) else Inl PanicIndex)"

text \<open>
  \<open>RemoveEntry\<close>: \<open>append(data.Entries[:index], data.Entries[index+1:]...)\<close>. The slice
  expression \<open>data.Entries[index+1:]\<close> panics unless \<open>index + 1\<close> is at most the length.
\<close>

definition RemoveEntry :: "TOTPData \<Rightarrow> string \<Rightarrow> string \<Rightarrow> error option \<times> TOTPData" where
  "RemoveEntry data name issuer =
     (case FindEntry data name issuer of
        Inl err \<Rightarrow> (Some err, data)
      | Inr index \<Rightarrow>
          if index + 1 \<le> length (elems data) then
            (None, data\<lparr>Entries := Some (take index (elems data) @ drop (index + 1) (elems data))\<rparr>)
          else (Some PanicSliceBounds, data))"

text \<open>
  The composite-key rule the loop of \<open>FindEntry\<close> applies to one entry, as a predicate:
  the account names are equal and the probe's issuer is empty or equal to the entry's.
\<close>

definition key_match :: "string \<Rightarrow> string \<Rightarrow> TOTPEntry \<Rightarrow> bool" where
  "key_match name issuer entry =
     (AccountName entry = name \<and> (issuer = [] \<or> Issuer entry = issuer))"

text \<open>The composite key of a stored record: its account name and its issuer.\<close>

definition entry_key :: "TOTPEntry \<Rightarrow> string \<times> string" where
  "entry_key entry = (AccountName entry, Issuer entry)"

text \<open>
  Sequences of calls on one collection, as the commands of the command line make them:
  \<open>Add key\<close> is \<open>data.AddEntry(key)\<close>, \<open>Remove name issuer\<close> is
  \<open>data.RemoveEntry(name, issuer)\<close>; the error a call returns does not stop the sequence.
\<close>

datatype operation = Add otp_Key | Remove string string

fun apply_op :: "TOTPData \<Rightarrow> operation \<Rightarrow> TOTPData" where
  "apply_op data (Add key) = snd (AddEntry data key)"
| "apply_op data (Remove name issuer) = snd (RemoveEntry data name issuer)"

definition run_ops :: "TOTPData \<Rightarrow> operation list \<Rightarrow> TOTPData" where
  "run_ops data ops = foldl apply_op data ops"

text \<open>
  The two empty collections of the program: the zero value \<open>TOTPData{}\<close>, whose slice
  is \<open>nil\<close>, and \<open>TOTPData{Entries: []TOTPEntry{}}\<close> of the command \<open>create-db\<close>.
\<close>

definition zero_TOTPData :: TOTPData where
  "zero_TOTPData = \<lparr> Entries = None \<rparr>"

definition new_TOTPData :: TOTPData where
  "new_TOTPData = \<lparr> Entries = Some [] \<rparr>"

text \<open>A key as the URL parser would hand it over, for the examples.\<close>

definition sample_key :: "string \<Rightarrow> string \<Rightarrow> otp_Key" where
  "sample_key account issuer =
     \<lparr> kIssuer = issuer,
       kAccountName = account,
       kSecret = ''JBSWY3DPEHPK3PXP'',
       kType = ''totp'',
       kPeriod = 30,
       kDigits = 6,
       kAlgorithm = ''SHA1'',
       kURL = ''otpauth://totp/'' @ issuer @ '':'' @ account @ ''?secret=JBSWY3DPEHPK3PXP'' \<rparr>"

section \<open>The cryptographic layer\<close>

text \<open>
  The package calls the Go standard library (\<open>crypto/aes\<close>, \<open>crypto/cipher\<close>,
  \<open>crypto/sha256\<close>, \<open>crypto/rand\<close>, \<open>io\<close>, \<open>os\<close>) and the modules
  \<open>golang.org/x/crypto/pbkdf2\<close> and \<open>github.com/fxamacker/cbor/v2\<close>. None of them is
  part of the repository. Their cryptographic cores and the CBOR codec are parameters of
  the model, collected in one record; every theorem below holds for all values of them:
  \<^item> \<open>sha256 m\<close>: the SHA-256 digest of \<open>m\<close>, 256 bits;
  \<^item> \<open>aes_ctr key nonce i\<close>: byte \<open>i\<close> of the key stream that AES in counter mode
    produces for a message under \<open>key\<close> and \<open>nonce\<close>;
  \<^item> \<open>gcm_tag key nonce aad c\<close>: the 128-bit GCM authentication tag of the ciphertext
    \<open>c\<close> and the additional data \<open>aad\<close> under \<open>key\<close> and \<open>nonce\<close>;
  \<^item> \<open>cbor_Encode\<close>, \<open>cbor_Decode\<close>: what \<open>Encoder.Encode\<close> writes for a
    \<open>*TOTPData\<close> and what \<open>Decoder.Decode\<close> reads into one.
  What the libraries build around these cores (the checks on key and nonce lengths, the
  layout of a sealed message, HMAC, PBKDF2) is written out below, following their
  documentation and the standards they implement.
\<close>

record primitives =
  sha256 :: "bytes \<Rightarrow> 256 word"
  aes_ctr :: "bytes \<Rightarrow> bytes \<Rightarrow> nat \<Rightarrow> byte"
  gcm_tag :: "bytes \<Rightarrow> bytes \<Rightarrow> bytes \<Rightarrow> bytes \<Rightarrow> 128 word"
  cbor_Encode :: "TOTPData \<Rightarrow> error + bytes"
  cbor_Decode :: "bytes \<Rightarrow> error + TOTPData"

text \<open>\<open>[]byte(s)\<close> for a string \<open>s\<close>.\<close>

definition bytes_of_string :: "string \<Rightarrow> bytes" where
  "bytes_of_string s = map (\<lambda>c. of_nat (of_char c)) s"

text \<open>The bytes of a word, most significant first.\<close>

definition be_bytes :: "'a::len word \<Rightarrow> bytes" where
  "be_bytes w = map (\<lambda>i. ucast (drop_bit (8 * i) w)) (rev [0..<LENGTH('a) div 8])"

text \<open>\<open>a[x] ^ b[x]\<close> for every index of two byte slices of one length.\<close>

definition xor_bytes :: "bytes \<Rightarrow> bytes \<Rightarrow> bytes" where
  "xor_bytes a b = map (\<lambda>(x, y). x XOR y) (zip a b)"

subsection \<open>Hashing: \<open>sha256.New\<close>, \<open>hmac.New\<close>, \<open>pbkdf2.Key\<close>\<close>

text \<open>
  A \<open>hash.Hash\<close> as the key derivation uses it: its digest size, its block size, and
  the digest of a whole message (\<open>Reset\<close>, \<open>Write\<close>, \<open>Sum\<close>).
\<close>

record hash =
  hSize :: nat
  hBlockSize :: nat
  hSum :: "bytes \<Rightarrow> bytes"

definition sha256_New :: "primitives \<Rightarrow> hash" where
  "sha256_New P = \<lparr> hSize = 32, hBlockSize = 64, hSum = (\<lambda>m. be_bytes (sha256 P m)) \<rparr>"

text \<open>
  \<open>hmac.New(h, key)\<close> followed by \<open>Write(m)\<close> and \<open>Sum\<close>: HMAC (RFC 2104). A key longer
  than a block is hashed first; the key is then padded with zeros to a block.
\<close>

definition hmac :: "hash \<Rightarrow> bytes \<Rightarrow> bytes \<Rightarrow> bytes" where
  "hmac h key m =
     (let key1 = (if hBlockSize h < length key then hSum h key else key);
          padded = key1 @ replicate (hBlockSize h - length key1) 0;
          ipad = map (\<lambda>b. b XOR 0x36) padded;
          opad = map (\<lambda>b. b XOR 0x5c) padded
      in hSum h (opad @ hSum h (ipad @ m)))"

text \<open>Go's \<open>/\<close> on \<open>int\<close> truncates towards zero.\<close>

definition go_div :: "int \<Rightarrow> int \<Rightarrow> int" where
  "go_div a b = sgn a * sgn b * (\<bar>a\<bar> div \<bar>b\<bar>)"

text \<open>The four bytes \<open>byte(block >> 24), \<dots>, byte(block)\<close>.\<close>

definition block_index :: "int \<Rightarrow> bytes" where
  "block_index block =
     [word_of_int (drop_bit 24 block), word_of_int (drop_bit 16 block),
      word_of_int (drop_bit 8 block), word_of_int block]"

text \<open>
  \<open>pbkdf2.Key\<close>, inner loop \<open>for n := 2; n <= iter; n++\<close>: \<open>U\<close> becomes the
  pseudorandom function of the previous \<open>U\<close> and is xor-ed into \<open>T\<close>.
\<close>

function pbkdf2_inner :: "(bytes \<Rightarrow> bytes) \<Rightarrow> int \<Rightarrow> int \<Rightarrow> bytes \<Rightarrow> bytes \<Rightarrow> bytes" where
  "pbkdf2_inner PRF iter n U T =
     (if n \<le> iter then
        (let U1 = PRF U in pbkdf2_inner PRF iter (n + 1) U1 (xor_bytes T U1))
      else T)"
  by pat_completeness auto
termination
  by (relation "measure (\<lambda>(PRF, iter, n, U, T). nat (iter + 1 - n))") auto

declare pbkdf2_inner.simps [simp del]

text \<open>
  Outer loop \<open>for block := 1; block <= numBlocks; block++\<close>: the first \<open>U\<close> of a block
  is the pseudorandom function of the salt followed by the block index; the finished
  \<open>T\<close> is the tail of \<open>dk\<close>. The digest is \<open>hashLen\<close> bytes long, so the \<open>T\<close> the source
  slices off the end of \<open>dk\<close> is the digest just appended.
\<close>

function pbkdf2_blocks :: "(bytes \<Rightarrow> bytes) \<Rightarrow> bytes \<Rightarrow> int \<Rightarrow> int \<Rightarrow> int \<Rightarrow> bytes \<Rightarrow> bytes" where
  "pbkdf2_blocks PRF salt iter numBlocks block dk =
     (if block \<le> numBlocks then
        (let T = PRF (salt @ block_index block)
         in pbkdf2_blocks PRF salt iter numBlocks (block + 1)
              (dk @ pbkdf2_inner PRF iter 2 T T))
      else dk)"
  by pat_completeness auto
termination
  by (relation "measure (\<lambda>(PRF, salt, iter, numBlocks, block, dk). nat (numBlocks + 1 - block))") auto

declare pbkdf2_blocks.simps [simp del]

text \<open>
  \<open>pbkdf2.Key(password, salt, iter, keyLen, h)\<close>. \<open>make\<close> panics on a negative capacity
  and the final \<open>dk[:keyLen]\<close> panics when \<open>keyLen\<close> is negative or beyond the capacity of
  \<open>dk\<close>, which is its length here. Go's \<open>int\<close> is modelled by \<open>int\<close>: the sum
  \<open>keyLen + hashLen - 1\<close> would wrap around only for a \<open>keyLen\<close> that no slice can have.
\<close>

definition pbkdf2_Key :: "bytes \<Rightarrow> bytes \<Rightarrow> int \<Rightarrow> int \<Rightarrow> hash \<Rightarrow> error + bytes" where
  "pbkdf2_Key password salt iter keyLen h =
     (let PRF = hmac h password;
          hashLen = int (hSize h);
          numBlocks = go_div (keyLen + hashLen - 1) hashLen
      in if numBlocks * hashLen < 0 then Inl PanicMakeSlice
         else
           (let dk = pbkdf2_blocks PRF salt iter numBlocks 1 []
            in if keyLen < 0 \<or> int (length dk) < keyLen then Inl PanicSliceBounds
               else Inr (take (nat keyLen) dk)))"

text \<open>
  \<open>DeriveKey\<close> returns what \<open>pbkdf2.Key\<close> returns; a panic of the library is the
  \<open>Inl\<close> case.
\<close>

definition DeriveKey :: "primitives \<Rightarrow> bytes \<Rightarrow> bytes \<Rightarrow> int \<Rightarrow> error + bytes" where
  "DeriveKey P password salt keyLen = pbkdf2_Key password salt 4096 keyLen (sha256_New P)"

definition GenerateSalt :: "primitives \<Rightarrow> string \<Rightarrow> bytes" where
  "GenerateSalt P input = be_bytes (sha256 P (bytes_of_string input))"

text \<open>
  PBKDF2 as RFC 8018 defines it, for a pseudorandom function \<open>PRF\<close> of the password and
  a message with outputs of \<open>hLen\<close> bytes, an iteration count \<open>c\<close> and a key length
  \<open>dkLen\<close>: \<open>INT i\<close> is the four-byte big-endian encoding of \<open>i\<close>,
  \<open>U\<^sub>1 = PRF P (S \<parallel> INT i)\<close>, \<open>U\<^sub>j = PRF P U\<^sub>j\<^sub>-\<^sub>1\<close>,
  \<open>F P S c i = U\<^sub>1 xor \<dots> xor U\<^sub>c\<close>, and the key is the first \<open>dkLen\<close> bytes of
  \<open>F P S c 1 \<parallel> F P S c 2 \<parallel> \<dots>\<close> over \<open>\<lceil>dkLen / hLen\<rceil>\<close> blocks.
\<close>

definition INT_be :: "nat \<Rightarrow> bytes" where
  "INT_be i = [of_nat (i div 2 ^ 24), of_nat (i div 2 ^ 16), of_nat (i div 2 ^ 8), of_nat i]"

fun PBKDF2_U :: "(bytes \<Rightarrow> bytes \<Rightarrow> bytes) \<Rightarrow> bytes \<Rightarrow> bytes \<Rightarrow> nat \<Rightarrow> nat \<Rightarrow> bytes" where
  "PBKDF2_U PRF P S i 0 = PRF P (S @ INT_be i)"
| "PBKDF2_U PRF P S i (Suc j) = PRF P (PBKDF2_U PRF P S i j)"

definition PBKDF2_F :: "(bytes \<Rightarrow> bytes \<Rightarrow> bytes) \<Rightarrow> bytes \<Rightarrow> bytes \<Rightarrow> nat \<Rightarrow> nat \<Rightarrow> bytes" where
  "PBKDF2_F PRF P S c i =
     foldl xor_bytes (PBKDF2_U PRF P S i 0) (map (PBKDF2_U PRF P S i) [1..<c])"

definition PBKDF2 ::
  "(bytes \<Rightarrow> bytes \<Rightarrow> bytes) \<Rightarrow> nat \<Rightarrow> bytes \<Rightarrow> bytes \<Rightarrow> nat \<Rightarrow> nat \<Rightarrow> bytes" where
  "PBKDF2 PRF hLen P S c dkLen =
     take dkLen (concat (map (PBKDF2_F PRF P S c) [1..<Suc ((dkLen + hLen - 1) div hLen)]))"

subsection \<open>Authenticated encryption: \<open>aes.NewCipher\<close>, \<open>cipher.NewGCM\<close>, \<open>Seal\<close>, \<open>Open\<close>\<close>

text \<open>
  \<open>aes.NewCipher(key)\<close> accepts keys of 16, 24 and 32 bytes and returns a
  \<open>KeySizeError\<close> for every other length. The block it returns has a block size of 16.
\<close>

record cipher_Block =
  block_key :: bytes
  BlockSize :: nat

definition aes_NewCipher :: "bytes \<Rightarrow> error + cipher_Block" where
  "aes_NewCipher key =
     (let k = length key
      in if k = 16 \<or> k = 24 \<or> k = 32 then Inr \<lparr> block_key = key, BlockSize = 16 \<rparr>
         else Inl (KeySizeError k))"

text \<open>
  \<open>cipher.NewGCM(block)\<close> requires a 128-bit block cipher. The AEAD it returns has the
  standard nonce size of 12 bytes and a tag of 16 bytes.
\<close>

record cipher_AEAD =
  aead_key :: bytes
  NonceSize :: nat
  Overhead :: nat

definition cipher_NewGCM :: "cipher_Block \<Rightarrow> error + cipher_AEAD" where
  "cipher_NewGCM block =
     (if BlockSize block \<noteq> 16 then Inl ErrGCMBlockSize
      else Inr \<lparr> aead_key = block_key block, NonceSize = 12, Overhead = 16 \<rparr>)"

text \<open>Counter mode: byte \<open>i\<close> of the message is xor-ed with byte \<open>i\<close> of the key stream.\<close>

definition ctr_xor :: "primitives \<Rightarrow> bytes \<Rightarrow> bytes \<Rightarrow> bytes \<Rightarrow> bytes" where
  "ctr_xor P key nonce m = map (\<lambda>(i, b). b XOR aes_ctr P key nonce i) (zip [0..<length m] m)"

text \<open>
  \<open>Seal(dst, nonce, plaintext, additionalData)\<close> appends the ciphertext and the tag to
  \<open>dst\<close>; it panics on a nonce whose length is not \<open>NonceSize()\<close>. Messages are taken
  to be within the length GCM allows (less than 64 GiB); the library's refusal of longer
  ones is not modelled.
\<close>

definition Seal :: "primitives \<Rightarrow> cipher_AEAD \<Rightarrow> bytes \<Rightarrow> bytes \<Rightarrow> bytes \<Rightarrow> bytes \<Rightarrow> error + bytes" where
  "Seal P g dst nonce plaintext additionalData =
     (if length nonce \<noteq> NonceSize g then Inl PanicNonceLength
      else
        (let c = ctr_xor P (aead_key g) nonce plaintext
         in Inr (dst @ c @ be_bytes (gcm_tag P (aead_key g) nonce additionalData c))))"

text \<open>The AEAD that \<open>Encrypt\<close> and \<open>Decrypt\<close> build from an AES key.\<close>

definition AES_GCM :: "bytes \<Rightarrow> cipher_AEAD" where
  "AES_GCM key = \<lparr> aead_key = key, NonceSize = 12, Overhead = 16 \<rparr>"

text \<open>
  The tag of a sealed message verifies: the message holds at least the \<open>Overhead()\<close>
  bytes of a tag, and its last 16 bytes are the tag of what precedes them.
\<close>

definition tag_verifies :: "primitives \<Rightarrow> cipher_AEAD \<Rightarrow> bytes \<Rightarrow> bytes \<Rightarrow> bytes \<Rightarrow> bool" where
  "tag_verifies P g nonce ciphertext additionalData =
     (Overhead g \<le> length ciphertext \<and>
      drop (length ciphertext - Overhead g) ciphertext =
        be_bytes (gcm_tag P (aead_key g) nonce additionalData
                    (take (length ciphertext - Overhead g) ciphertext)))"

text \<open>
  \<open>Open(dst, nonce, ciphertext, additionalData)\<close> panics on a nonce of the wrong length,
  returns the one error \<open>ErrOpen\<close> when the tag does not verify, and otherwise appends
  the plaintext to \<open>dst\<close>.
\<close>

definition Open :: "primitives \<Rightarrow> cipher_AEAD \<Rightarrow> bytes \<Rightarrow> bytes \<Rightarrow> bytes \<Rightarrow> bytes \<Rightarrow> error + bytes" where
  "Open P g dst nonce ciphertext additionalData =
     (if length nonce \<noteq> NonceSize g then Inl PanicNonceLength
      else if \<not> tag_verifies P g nonce ciphertext additionalData then Inl ErrOpen
      else Inr (dst @ ctr_xor P (aead_key g) nonce
                        (take (length ciphertext - Overhead g) ciphertext)))"

text \<open>
  A reader (\<open>rand.Reader\<close>) is modelled by the bytes it still delivers before it fails.
  \<open>io.ReadFull(r, buf)\<close> fills \<open>buf\<close> or returns an error: \<open>EOF\<close> when it read nothing,
  \<open>ErrUnexpectedEOF\<close> when it read a part. It returns the reader afterwards as well.
\<close>

definition io_ReadFull :: "bytes \<Rightarrow> nat \<Rightarrow> (error + bytes) \<times> bytes" where
  "io_ReadFull r n =
     (if n \<le> length r then (Inr (take n r), drop n r)
      else (Inl (if r = [] then EOF else ErrUnexpectedEOF), []))"

text \<open>
  \<open>Encrypt(src, key)\<close>. The argument \<open>rnd\<close> is the state of \<open>rand.Reader\<close>, returned
  with the result.
\<close>

definition Encrypt :: "primitives \<Rightarrow> bytes \<Rightarrow> bytes \<Rightarrow> bytes \<Rightarrow> (error + bytes) \<times> bytes" where
  "Encrypt P rnd src key =
     (case aes_NewCipher key of
        Inl err \<Rightarrow> (Inl err, rnd)
      | Inr block \<Rightarrow>
          (case cipher_NewGCM block of
             Inl err \<Rightarrow> (Inl err, rnd)
           | Inr aesGCM \<Rightarrow>
               (case io_ReadFull rnd (NonceSize aesGCM) of
                  (Inl err, rest) \<Rightarrow> (Inl err, rest)
                | (Inr nonce, rest) \<Rightarrow> (Seal P aesGCM nonce nonce src [], rest))))"

definition Decrypt :: "primitives \<Rightarrow> bytes \<Rightarrow> bytes \<Rightarrow> error + bytes" where
  "Decrypt P src key =
     (case aes_NewCipher key of
        Inl err \<Rightarrow> Inl err
      | Inr block \<Rightarrow>
          (case cipher_NewGCM block of
             Inl err \<Rightarrow> Inl err
           | Inr aesGCM \<Rightarrow>
               (let nonceSize = NonceSize aesGCM
                in if length src < nonceSize then Inl ErrCiphertextTooShort
                   else
                     (let nonce = take nonceSize src;
                          ciphertext = drop nonceSize src
                      in Open P aesGCM [] nonce ciphertext []))))"

section \<open>Persistence\<close>

text \<open>
  The part of the machine the two functions touch: the files by name, the names
  \<open>os.WriteFile\<close> cannot create or truncate, and the state of \<open>rand.Reader\<close>.
\<close>

record world =
  files :: "string \<rightharpoonup> bytes"
  unwritable :: "string set"
  rand_Reader :: bytes

definition os_ReadFile :: "world \<Rightarrow> string \<Rightarrow> error + bytes" where
  "os_ReadFile w name = (case files w name of None \<Rightarrow> Inl ErrNotExist | Some b \<Rightarrow> Inr b)"

definition os_WriteFile :: "world \<Rightarrow> string \<Rightarrow> bytes \<Rightarrow> error option \<times> world" where
  "os_WriteFile w name b =
     (if name \<in> unwritable w then (Some ErrPermission, w)
      else (None, w\<lparr>files := (files w)(name \<mapsto> b)\<rparr>))"

definition ReadCBORSec :: "primitives \<Rightarrow> world \<Rightarrow> string \<Rightarrow> string \<Rightarrow> bytes \<Rightarrow> error + TOTPData" where
  "ReadCBORSec P w filename password salt =
     (case os_ReadFile w filename of
        Inl err \<Rightarrow> Inl err
      | Inr encryptedData \<Rightarrow>
          (case DeriveKey P (bytes_of_string password) salt 32 of
             Inl panic \<Rightarrow> Inl panic
           | Inr key \<Rightarrow>
               (case Decrypt P encryptedData key of
                  Inl err \<Rightarrow> Inl err
                | Inr data \<Rightarrow> cbor_Decode P data)))"

definition WriteCBORSec ::
  "primitives \<Rightarrow> world \<Rightarrow> string \<Rightarrow> TOTPData \<Rightarrow> string \<Rightarrow> bytes \<Rightarrow> error option \<times> world" where
  "WriteCBORSec P w filename data password salt =
     (case cbor_Encode P data of
        Inl err \<Rightarrow> (Some err, w)
      | Inr buf \<Rightarrow>
          (case DeriveKey P (bytes_of_string password) salt 32 of
             Inl panic \<Rightarrow> (Some panic, w)
           | Inr key \<Rightarrow>
               (case Encrypt P (rand_Reader w) buf key of
                  (Inl err, rest) \<Rightarrow> (Some err, w\<lparr>rand_Reader := rest\<rparr>)
                | (Inr encryptedData, rest) \<Rightarrow>
                    os_WriteFile (w\<lparr>rand_Reader := rest\<rparr>) filename encryptedData)))"

section \<open>Example values\<close>

text \<open>
  Simple values for the parameters, used to instantiate the theorems at concrete inputs:
  a digest, a key stream and a tag that are easy to compute, and a codec that knows the
  two empty collections only.
\<close>

definition toy_Encode :: "TOTPData \<Rightarrow> error + bytes" where
  "toy_Encode data =
     (case Entries data of
        None \<Rightarrow> Inr [0xf6]
      | Some [] \<Rightarrow> Inr [0x80]
      | Some (e # es) \<Rightarrow> Inl ErrCBOR)"

definition toy_Decode :: "bytes \<Rightarrow> error + TOTPData" where
  "toy_Decode b =
     (if b = [0xf6] then Inr \<lparr> Entries = None \<rparr>
      else if b = [0x80] then Inr \<lparr> Entries = Some [] \<rparr>
      else Inl ErrCBOR)"

definition toy_primitives :: primitives where
  "toy_primitives =
     \<lparr> sha256 = (\<lambda>m. of_nat (sum_list (map unat m))),
       aes_ctr = (\<lambda>key nonce i. of_nat (i + sum_list (map unat (key @ nonce)))),
       gcm_tag = (\<lambda>key nonce aad c. of_nat (sum_list (map unat (key @ nonce @ aad @ c)))),
       cbor_Encode = toy_Encode,
       cbor_Decode = toy_Decode \<rparr>"

definition example_data :: TOTPData where
  "example_data =
     run_ops zero_TOTPData
       [Add (sample_key ''bob'' ''GitHub''),
        Add (sample_key ''alice'' ''Google''),
        Add (sample_key ''alice'' ''GitHub'')]"

definition key32 :: bytes where
  "key32 = replicate 32 1"

definition empty_world :: world where
  "empty_world = \<lparr> files = Map.empty, unwritable = {}, rand_Reader = replicate 12 9 \<rparr>"

section \<open>Properties of the record store\<close>

subsection \<open>What the loop of \<open>FindEntry\<close> computes\<close>

lemma FindEntry_loop_eq:
  "FindEntry_loop es ind name issuer =
     (if \<exists>e \<in> set es. key_match name issuer e
      then Inr (ind + length (takeWhile (\<lambda>e. \<not> key_match name issuer e) es))
      else Inl ErrEntryNotFound)"
  by (induction es arbitrary: ind) (auto simp: key_match_def)

lemma FindEntry_eq:
  "FindEntry data name issuer =
     (if \<exists>e \<in> set (elems data). key_match name issuer e
      then Inr (length (takeWhile (\<lambda>e. \<not> key_match name issuer e) (elems data)))
      else Inl ErrEntryNotFound)"
  by (simp add: FindEntry_def FindEntry_loop_eq)

text \<open>The length of the longest prefix without a match is the index of the first match.\<close>

lemma first_index_iff:
  "(\<exists>x \<in> set xs. Q x) \<and> k = length (takeWhile (\<lambda>x. \<not> Q x) xs) \<longleftrightarrow>
     k < length xs \<and> Q (xs ! k) \<and> (\<forall>j < k. \<not> Q (xs ! j))"
proof (induction xs arbitrary: k)
  case Nil
  then show ?case by simp
next
  case (Cons x xs)
  show ?case
  proof (cases "Q x")
    case True
    then show ?thesis by (cases k) auto
  next
    case False
    show ?thesis
    proof (cases k)
      case 0
      with False show ?thesis by auto
    next
      case (Suc m)
      have "(\<forall>j<Suc m. \<not> Q ((x # xs) ! j)) \<longleftrightarrow> (\<forall>j<m. \<not> Q (xs ! j))"
        using False by (auto simp: less_Suc_eq_0_disj)
      with Cons.IH [of m] False Suc show ?thesis by simp
    qed
  qed
qed

lemma FindEntry_Inr_iff:
  "FindEntry data name issuer = Inr k \<longleftrightarrow>
     k < length (elems data) \<and> key_match name issuer (elems data ! k) \<and>
     (\<forall>j < k. \<not> key_match name issuer (elems data ! j))"
  using first_index_iff [of "elems data" "key_match name issuer" k]
  by (auto simp: FindEntry_eq)

lemma FindEntry_Inl_iff:
  "FindEntry data name issuer = Inl e \<longleftrightarrow>
     e = ErrEntryNotFound \<and> \<not> (\<exists>x \<in> set (elems data). key_match name issuer x)"
  by (auto simp: FindEntry_eq)

lemma elems_update [simp]: "elems (data\<lparr>Entries := Some es\<rparr>) = es"
  by (simp add: elems_def)

lemma elems_zero [simp]: "elems zero_TOTPData = []"
  by (simp add: elems_def zero_TOTPData_def)

lemma elems_new [simp]: "elems new_TOTPData = []"
  by (simp add: elems_def new_TOTPData_def)

lemma elems_example:
  "elems example_data =
     [FromOTPKey (sample_key ''bob'' ''GitHub''),
      FromOTPKey (sample_key ''alice'' ''Google''),
      FromOTPKey (sample_key ''alice'' ''GitHub'')]"
  by code_simp

lemma example_data_eq: "example_data = \<lparr> Entries = Some (elems example_data) \<rparr>"
  by code_simp

text \<open>
  \<open>GetEntry\<close> returns the entry at the index found; the index is inside the slice, so
  the indexing does not panic.
\<close>

lemma GetEntry_eq:
  "GetEntry data name issuer =
     (case FindEntry data name issuer of
        Inl err \<Rightarrow> Inl err
      | Inr ind \<Rightarrow> Inr (elems data ! ind))"
proof (cases "FindEntry data name issuer")
  case (Inl err)
  then show ?thesis by (simp add: GetEntry_def)
next
  case (Inr ind)
  then have "ind < length (elems data)" by (simp add: FindEntry_Inr_iff)
  with Inr show ?thesis by (simp add: GetEntry_def)
qed

text \<open>
  Claim C8. For every collection and account name \<open>a\<close>, \<open>FindEntry\<close> with the empty
  issuer returns the index of the first record, in the order of the collection, whose
  account name is \<open>a\<close>, whatever the issuer of that record; it returns
  \<open>ErrEntryNotFound\<close> exactly when no record has the account name \<open>a\<close>, and it returns no
  other error.
\<close>

theorem FindEntry_empty_issuer_first:
  "((FindEntry data a [] = Inl ErrEntryNotFound) =
      (\<not> (\<exists>e \<in> set (elems data). AccountName e = a))) \<and>
   (\<forall>err. FindEntry data a [] = Inl err \<longrightarrow> err = ErrEntryNotFound) \<and>
   (\<forall>k. (FindEntry data a [] = Inr k) =
      (k < length (elems data) \<and> AccountName (elems data ! k) = a \<and>
       (\<forall>j < k. AccountName (elems data ! j) \<noteq> a)))"
  by (simp add: FindEntry_Inr_iff FindEntry_Inl_iff key_match_def)

theorem FindEntry_empty_issuer_first_witness:
  "FindEntry example_data ''alice'' [] = Inr 1 \<and>
   AccountName (elems example_data ! 1) = ''alice'' \<and>
   Issuer (elems example_data ! 1) = ''Google'' \<and>
   AccountName (elems example_data ! 0) \<noteq> ''alice'' \<and>
   FindEntry example_data ''carol'' [] = Inl ErrEntryNotFound"
  using FindEntry_empty_issuer_first [of example_data "''alice''"]
    FindEntry_empty_issuer_first [of example_data "''carol''"]
  by (simp add: elems_example FromOTPKey_def sample_key_def)

subsection \<open>\<open>AddEntry\<close> and \<open>RemoveEntry\<close> on the sequence of records\<close>

lemma AddEntry_eq:
  "AddEntry C r =
     (if \<exists>e \<in> set (elems C). key_match (kAccountName r) (kIssuer r) e
      then (Some ErrEntryExists, C)
      else (None, C\<lparr>Entries := Some (elems C @ [FromOTPKey r])\<rparr>))"
  by (cases "Entries C")
     (auto simp: AddEntry_def Let_def FindEntry_eq elems_def FromOTPKey_def split: sum.splits)



lemma length_takeWhile_lt:
  "\<exists>x \<in> set xs. \<not> Q x \<Longrightarrow> length (takeWhile Q xs) < length xs"
  by (induction xs) auto

lemma RemoveEntry_eq:
  "RemoveEntry data name issuer =
     (if \<exists>e \<in> set (elems data). key_match name issuer e
      then (None, data\<lparr>Entries :=
              Some (takeWhile (\<lambda>e. \<not> key_match name issuer e) (elems data) @
                    tl (dropWhile (\<lambda>e. \<not> key_match name issuer e) (elems data)))\<rparr>)
      else (Some ErrEntryNotFound, data))"
proof (cases "\<exists>e \<in> set (elems data). key_match name issuer e")
  case False
  then show ?thesis by (simp add: RemoveEntry_def FindEntry_eq)
next
  case True
  let ?Q = "\<lambda>e. \<not> key_match name issuer e"
  let ?k = "length (takeWhile ?Q (elems data))"
  have lt: "?k < length (elems data)"
    using True by (intro length_takeWhile_lt) simp
  have t: "take ?k (elems data) = takeWhile ?Q (elems data)"
    by (rule takeWhile_eq_take [symmetric])
  have d: "drop (?k + 1) (elems data) = tl (dropWhile ?Q (elems data))"
    by (simp add: dropWhile_eq_drop drop_Suc tl_drop)
  show ?thesis
    using True lt t d by (simp add: RemoveEntry_def FindEntry_eq)
qed

subsection \<open>The composite keys of a collection stay distinct\<close>

lemma AddEntry_keeps_distinct:
  assumes "distinct (map entry_key (elems data))"
  shows "distinct (map entry_key (elems (snd (AddEntry data key))))"
proof (cases "\<exists>e \<in> set (elems data). key_match (kAccountName key) (kIssuer key) e")
  case True
  with assms show ?thesis by (simp add: AddEntry_eq)
next
  case False
  then have "entry_key (FromOTPKey key) \<notin> entry_key ` set (elems data)"
    by (auto simp: key_match_def entry_key_def FromOTPKey_def)
  with assms False show ?thesis by (simp add: AddEntry_eq)
qed

lemma distinct_map_remove_first:
  assumes "distinct (map f xs)"
  shows "distinct (map f (takeWhile Q xs @ tl (dropWhile Q xs)))"
proof -
  define a where "a = takeWhile Q xs"
  define d where "d = dropWhile Q xs"
  have "xs = a @ d" by (simp add: a_def d_def)
  with assms have "distinct (map f (a @ d))" by simp
  then have "distinct (map f (a @ tl d))" by (cases d) auto
  then show ?thesis by (simp only: a_def d_def)
qed

lemma RemoveEntry_keeps_distinct:
  assumes "distinct (map entry_key (elems data))"
  shows "distinct (map entry_key (elems (snd (RemoveEntry data name issuer))))"
  using assms distinct_map_remove_first [of entry_key "elems data"]
  by (simp add: RemoveEntry_eq del: map_append distinct_append)

lemma apply_op_keeps_distinct:
  "distinct (map entry_key (elems data)) \<Longrightarrow>
   distinct (map entry_key (elems (apply_op data op)))"
  by (cases op) (simp_all add: AddEntry_keeps_distinct RemoveEntry_keeps_distinct)

lemma run_ops_keeps_distinct:
  "distinct (map entry_key (elems data)) \<Longrightarrow>
   distinct (map entry_key (elems (run_ops data ops)))"
  unfolding run_ops_def
  by (induction ops arbitrary: data) (simp_all add: apply_op_keeps_distinct)

text \<open>
  Claim C5. Every collection that a sequence of \<open>AddEntry\<close> and \<open>RemoveEntry\<close> calls
  builds from an empty collection has no two records with the same account name and the
  same non-empty issuer (indeed no two records with the same account name and issuer at
  all). \<open>AddEntry\<close> reports a duplicate exactly when \<open>FindEntry\<close> finds the account name
  and issuer of the new record, and \<open>FindEntry\<close> with an empty issuer finds a record
  exactly when some record has the account name.
\<close>

theorem reachable_distinct_keys:
  "distinct (map entry_key (filter (\<lambda>e. Issuer e \<noteq> []) (elems (run_ops zero_TOTPData ops)))) \<and>
   distinct (map entry_key (filter (\<lambda>e. Issuer e \<noteq> []) (elems (run_ops new_TOTPData ops)))) \<and>
   distinct (map entry_key (elems (run_ops zero_TOTPData ops))) \<and>
   distinct (map entry_key (elems (run_ops new_TOTPData ops))) \<and>
   ((fst (AddEntry data key) = Some ErrEntryExists) =
      (\<exists>ind. FindEntry data (kAccountName key) (kIssuer key) = Inr ind)) \<and>
   ((\<exists>ind. FindEntry data name [] = Inr ind) =
      (\<exists>e \<in> set (elems data). AccountName e = name))"
proof -
  have z: "distinct (map entry_key (elems (run_ops zero_TOTPData ops)))"
    by (rule run_ops_keeps_distinct) simp
  have n: "distinct (map entry_key (elems (run_ops new_TOTPData ops)))"
    by (rule run_ops_keeps_distinct) simp
  have a: "(fst (AddEntry data key) = Some ErrEntryExists) =
      (\<exists>ind. FindEntry data (kAccountName key) (kIssuer key) = Inr ind)"
    by (simp add: AddEntry_eq FindEntry_eq)
  have f: "(\<exists>ind. FindEntry data name [] = Inr ind) =
      (\<exists>e \<in> set (elems data). AccountName e = name)"
    by (simp add: FindEntry_eq key_match_def)
  from z n a f show ?thesis
    by (simp add: distinct_map_filter)
qed

theorem reachable_distinct_keys_witness:
  "distinct (map entry_key (elems example_data)) \<and>
   distinct (map entry_key (filter (\<lambda>e. Issuer e \<noteq> []) (elems example_data))) \<and>
   fst (AddEntry example_data (sample_key ''alice'' [])) = Some ErrEntryExists \<and>
   (\<exists>ind. FindEntry example_data ''alice'' [] = Inr ind)"
proof -
  note t = reachable_distinct_keys [where data = example_data and name = "''alice''"
      and key = "sample_key ''alice'' []"
      and ops = "[Add (sample_key ''bob'' ''GitHub''), Add (sample_key ''alice'' ''Google''),
                  Add (sample_key ''alice'' ''GitHub'')]"]
  have ex: "\<exists>e \<in> set (elems example_data). AccountName e = ''alice''"
    by (simp add: elems_example FromOTPKey_def sample_key_def)
  from t have d1: "distinct (map entry_key (elems example_data))"
    unfolding example_data_def by blast
  from t have d2: "distinct (map entry_key (filter (\<lambda>e. Issuer e \<noteq> []) (elems example_data)))"
    unfolding example_data_def by blast
  from t ex have f: "\<exists>ind. FindEntry example_data ''alice'' [] = Inr ind"
    by blast
  from t f have a: "fst (AddEntry example_data (sample_key ''alice'' [])) = Some ErrEntryExists"
    by (simp add: sample_key_def)
  from d1 d2 a f show ?thesis by (intro conjI)
qed

subsection \<open>Looking a record up after removing it\<close>

lemma filter_first_match:
  "\<exists>x \<in> set xs. Q x \<Longrightarrow>
   filter Q xs = hd (dropWhile (\<lambda>x. \<not> Q x) xs) # filter Q (tl (dropWhile (\<lambda>x. \<not> Q x) xs))"
  by (induction xs) auto

lemma find_after_remove:
  assumes "\<exists>e \<in> set es. Q e"
  shows "(\<exists>e \<in> set (takeWhile (\<lambda>e. \<not> Q e) es @ tl (dropWhile (\<lambda>e. \<not> Q e) es)). Q e)
           \<longleftrightarrow> length (filter Q es) \<noteq> 1"
proof -
  let ?rest = "tl (dropWhile (\<lambda>e. \<not> Q e) es)"
  have "length (filter Q es) = Suc (length (filter Q ?rest))"
    using filter_first_match [OF assms] by simp
  moreover have "(\<exists>e \<in> set ?rest. Q e) \<longleftrightarrow> filter Q ?rest \<noteq> []"
    by (simp add: filter_empty_conv)
  moreover have "\<not> (\<exists>e \<in> set (takeWhile (\<lambda>e. \<not> Q e) es). Q e)"
    by (auto dest: set_takeWhileD)
  ultimately show ?thesis by auto
qed

lemma distinct_filter_eq_le1:
  "distinct xs \<Longrightarrow> length (filter (\<lambda>k. k = v) xs) \<le> 1"
  by (induction xs) (auto simp: filter_empty_conv)

lemma distinct_key_filter:
  assumes "distinct (map entry_key es)" "issuer \<noteq> []"
  shows "length (filter (key_match name issuer) es) \<le> 1"
proof -
  have "filter (key_match name issuer) es = filter (\<lambda>e. entry_key e = (name, issuer)) es"
    using assms(2) by (auto simp: key_match_def entry_key_def intro: filter_cong)
  also have "length \<dots> = length (filter (\<lambda>k. k = (name, issuer)) (map entry_key es))"
    by (simp add: filter_map comp_def)
  also have "\<dots> \<le> 1"
    using assms(1) by (rule distinct_filter_eq_le1)
  finally show ?thesis .
qed

text \<open>
  Claim C3, as the code has it. When \<open>RemoveEntry C a i\<close> succeeds, \<open>FindEntry\<close> with the
  same \<open>a\<close> and \<open>i\<close> on the resulting collection returns \<open>ErrEntryNotFound\<close> exactly when
  \<open>C\<close> held one record only that matches \<open>a\<close> and \<open>i\<close>. That is so whenever \<open>i\<close> is not
  empty and no two records of \<open>C\<close> have the same account name and issuer, as in every
  collection built from an empty one by \<open>AddEntry\<close> and \<open>RemoveEntry\<close>.
\<close>

theorem remove_then_find_single_match:
  "(fst (RemoveEntry C a i) = None \<longrightarrow>
      (FindEntry (snd (RemoveEntry C a i)) a i = Inl ErrEntryNotFound) =
      (length (filter (key_match a i) (elems C)) = 1)) \<and>
   (fst (RemoveEntry C a i) = None \<and> i \<noteq> [] \<and> distinct (map entry_key (elems C)) \<longrightarrow>
      FindEntry (snd (RemoveEntry C a i)) a i = Inl ErrEntryNotFound)"
proof -
  let ?Q = "key_match a i"
  have main: "(FindEntry (snd (RemoveEntry C a i)) a i = Inl ErrEntryNotFound) =
      (length (filter ?Q (elems C)) = 1)" if ok: "fst (RemoveEntry C a i) = None"
  proof -
    from ok have ex: "\<exists>e \<in> set (elems C). ?Q e"
      by (simp add: RemoveEntry_eq split: if_splits)
    then show ?thesis
      using find_after_remove [of "elems C" ?Q]
      by (simp add: RemoveEntry_eq FindEntry_eq)
  qed
  have one: "length (filter ?Q (elems C)) = 1"
    if ok: "fst (RemoveEntry C a i) = None" and "i \<noteq> []" "distinct (map entry_key (elems C))"
  proof -
    from ok have "\<exists>e \<in> set (elems C). ?Q e"
      by (simp add: RemoveEntry_eq split: if_splits)
    then have "filter ?Q (elems C) \<noteq> []" by (simp add: filter_empty_conv)
    then have "length (filter ?Q (elems C)) \<noteq> 0" by simp
    with distinct_key_filter [OF that(3) that(2), of a] show ?thesis by linarith
  qed
  from main one show ?thesis by blast
qed

theorem remove_then_find_single_match_witness:
  "fst (RemoveEntry example_data ''alice'' ''Google'') = None \<and>
   ''Google'' \<noteq> [] \<and>
   distinct (map entry_key (elems example_data)) \<and>
   length (filter (key_match ''alice'' ''Google'') (elems example_data)) = 1 \<and>
   FindEntry (snd (RemoveEntry example_data ''alice'' ''Google'')) ''alice'' ''Google'' =
     Inl ErrEntryNotFound"
proof -
  have ok: "fst (RemoveEntry example_data ''alice'' ''Google'') = None"
    by (simp add: RemoveEntry_eq elems_example FromOTPKey_def sample_key_def key_match_def)
  have d: "distinct (map entry_key (elems example_data))"
    by (simp add: elems_example FromOTPKey_def sample_key_def entry_key_def)
  have l: "length (filter (key_match ''alice'' ''Google'') (elems example_data)) = 1"
    by (simp add: elems_example FromOTPKey_def sample_key_def key_match_def)
  from remove_then_find_single_match [of example_data "''alice''" "''Google''"] ok d l
  show ?thesis by simp
qed

text \<open>
  The claim as stated fails for the empty issuer. \<open>example_data\<close> holds two records of
  the account \<open>alice\<close>, with the issuers Google and GitHub. \<open>RemoveEntry\<close> with the empty
  issuer succeeds and removes the first of them; \<open>FindEntry\<close> with the empty issuer then
  finds the other one.
\<close>

theorem remove_then_find_empty_issuer_counterexample:
  "fst (RemoveEntry example_data ''alice'' []) = None \<and>
   FindEntry (snd (RemoveEntry example_data ''alice'' [])) ''alice'' [] = Inr 1"
  by code_simp

section \<open>Properties of the key derivation\<close>

lemma length_be_bytes [simp]: "length (be_bytes (w :: 'a::len word)) = LENGTH('a) div 8"
  by (simp add: be_bytes_def)

lemma length_xor_bytes [simp]: "length (xor_bytes a b) = min (length a) (length b)"
  by (simp add: xor_bytes_def)

lemma block_index_eq: "0 \<le> block \<Longrightarrow> block_index block = INT_be (nat block)"
proof -
  assume "0 \<le> block"
  then obtain i where b: "block = int i" using nonneg_int_cases by blast
  have "drop_bit n (int i) = int (i div 2 ^ n)" for n
    by (simp add: drop_bit_eq_div zdiv_int)
  then show ?thesis
    by (simp add: b block_index_def INT_be_def)
qed

subsection \<open>The loops of \<open>pbkdf2.Key\<close> compute the blocks of RFC 8018\<close>

lemma pbkdf2_inner_eq:
  "n = int k + 2 \<Longrightarrow> U = PBKDF2_U PRF P S i k \<Longrightarrow>
   pbkdf2_inner (PRF P) iter n U T =
     foldl xor_bytes T (map (PBKDF2_U PRF P S i) [Suc k..<nat iter])"
proof (induction "nat iter - Suc k" arbitrary: k n U T)
  case 0
  then have "\<not> n \<le> iter" by linarith
  moreover from 0 have "[Suc k..<nat iter] = []" by simp
  ultimately show ?case
    by (simp only: pbkdf2_inner.simps [of _ _ n] if_False list.map foldl_Nil)
next
  case (Suc d)
  then have le: "n \<le> iter" and lt: "Suc k < nat iter" by linarith+
  have IH: "pbkdf2_inner (PRF P) iter (n + 1) (PRF P U) (xor_bytes T (PRF P U)) =
      foldl xor_bytes (xor_bytes T (PRF P U)) (map (PBKDF2_U PRF P S i) [Suc (Suc k)..<nat iter])"
    using Suc.hyps(2) Suc.prems by (intro Suc.hyps(1)) auto
  have "pbkdf2_inner (PRF P) iter n U T =
      pbkdf2_inner (PRF P) iter (n + 1) (PRF P U) (xor_bytes T (PRF P U))"
    using le by (subst pbkdf2_inner.simps) (simp add: Let_def)
  also note IH
  finally show ?case
    using lt Suc.prems by (simp add: upt_conv_Cons)
qed

lemma pbkdf2_block_eq:
  "pbkdf2_inner (PRF P) iter 2 (PRF P (S @ INT_be i)) (PRF P (S @ INT_be i)) =
     PBKDF2_F PRF P S (nat iter) i"
  using pbkdf2_inner_eq [where n = 2 and k = 0 and U = "PRF P (S @ INT_be i)" and PRF = PRF
      and P = P and S = S and i = i and iter = iter and T = "PRF P (S @ INT_be i)"]
  by (simp add: PBKDF2_F_def)

lemma pbkdf2_blocks_eq:
  "1 \<le> block \<Longrightarrow>
   pbkdf2_blocks (PRF P) S iter numBlocks block dk =
     dk @ concat (map (PBKDF2_F PRF P S (nat iter)) [nat block..<Suc (nat numBlocks)])"
proof (induction "nat (numBlocks + 1 - block)" arbitrary: block dk)
  case 0
  then have "\<not> block \<le> numBlocks" by linarith
  moreover from 0 have "[nat block..<Suc (nat numBlocks)] = []" by simp
  ultimately show ?case
    by (simp only: pbkdf2_blocks.simps [of _ _ _ _ block] if_False list.map concat.simps
        append_Nil2)
next
  case (Suc d)
  then have le: "block \<le> numBlocks" by linarith
  with Suc.prems have lt: "nat block < Suc (nat numBlocks)" by linarith
  let ?T = "PBKDF2_F PRF P S (nat iter) (nat block)"
  have IH: "pbkdf2_blocks (PRF P) S iter numBlocks (block + 1) (dk @ ?T) =
      (dk @ ?T) @
      concat (map (PBKDF2_F PRF P S (nat iter)) [nat (block + 1)..<Suc (nat numBlocks)])"
    using Suc.hyps(2) Suc.prems by (intro Suc.hyps(1)) auto
  have "pbkdf2_blocks (PRF P) S iter numBlocks block dk =
      pbkdf2_blocks (PRF P) S iter numBlocks (block + 1) (dk @ ?T)"
    using le Suc.prems
    by (subst pbkdf2_blocks.simps) (simp add: Let_def block_index_eq pbkdf2_block_eq)
  also note IH
  also have "nat (block + 1) = Suc (nat block)" using Suc.prems by simp
  finally show ?case
    using lt by (simp add: upt_conv_Cons del: upt_Suc)
qed

subsection \<open>The length of the derived key\<close>

lemma length_foldl_xor:
  "length T = n \<Longrightarrow> \<forall>u \<in> set us. length u = n \<Longrightarrow> length (foldl xor_bytes T us) = n"
  by (induction us arbitrary: T) simp_all

lemma length_PBKDF2_U: "(\<And>m. length (PRF P m) = n) \<Longrightarrow> length (PBKDF2_U PRF P S i j) = n"
  by (cases j) simp_all

lemma length_PBKDF2_F:
  assumes "\<And>m. length (PRF P m) = n"
  shows "length (PBKDF2_F PRF P S c i) = n"
proof -
  have "length (PBKDF2_U PRF P S i j) = n" for j
    using assms by (rule length_PBKDF2_U)
  then show ?thesis
    unfolding PBKDF2_F_def by (intro length_foldl_xor) (auto simp: assms)
qed

lemma length_concat_const:
  "(\<And>x. x \<in> set xs \<Longrightarrow> length (f x) = n) \<Longrightarrow> length (concat (map f xs)) = length xs * n"
  by (induction xs) simp_all

lemma length_hmac_sha256 [simp]: "length (hmac (sha256_New P) key m) = 32"
  by (simp add: hmac_def sha256_New_def Let_def)

lemma length_GenerateSalt: "length (GenerateSalt P input) = 32"
  by (simp add: GenerateSalt_def)

lemma go_div_nonneg: "0 \<le> a \<Longrightarrow> 0 < b \<Longrightarrow> go_div a b = a div b"
  by (cases "a = 0") (simp_all add: go_div_def)

lemma hSize_sha256_New [simp]: "hSize (sha256_New P) = 32"
  by (simp add: sha256_New_def)

lemma pbkdf2_Key_sha256:
  assumes "0 \<le> keyLen"
  shows "pbkdf2_Key password salt iter keyLen (sha256_New P) =
           Inr (PBKDF2 (hmac (sha256_New P)) 32 password salt (nat iter) (nat keyLen))"
    and "length (PBKDF2 (hmac (sha256_New P)) 32 password salt (nat iter) (nat keyLen)) =
           nat keyLen"
proof -
  let ?h = "sha256_New P"
  let ?nb = "(keyLen + 32 - 1) div 32"
  let ?F = "PBKDF2_F (hmac ?h) password salt (nat iter)"
  define dk where "dk = concat (map ?F [1..<Suc (nat ?nb)])"
  have nb: "go_div (keyLen + 32 - 1) 32 = ?nb"
    using assms by (intro go_div_nonneg) simp_all
  have nb0: "0 \<le> ?nb" using assms by simp
  have blocks: "pbkdf2_blocks (hmac ?h password) salt iter ?nb 1 [] = dk"
    using pbkdf2_blocks_eq [where block = 1 and PRF = "hmac ?h" and P = password and S = salt
        and iter = iter and numBlocks = ?nb and dk = "[]"]
    by (simp add: dk_def)
  have "length dk = length [1..<Suc (nat ?nb)] * 32"
    unfolding dk_def by (rule length_concat_const) (simp add: length_PBKDF2_F)
  then have len: "length dk = nat ?nb * 32" by simp
  have "keyLen \<le> ?nb * 32" by presburger
  with nb0 have ge: "keyLen \<le> int (length dk)" by (simp add: len)
  have natnb: "(nat keyLen + 32 - 1) div 32 = nat ?nb"
    using assms by (simp add: nat_div_distrib nat_add_distrib)
  have spec: "PBKDF2 (hmac ?h) 32 password salt (nat iter) (nat keyLen) = take (nat keyLen) dk"
    unfolding PBKDF2_def natnb dk_def ..
  have "pbkdf2_Key password salt iter keyLen ?h =
      (if ?nb * 32 < 0 then Inl PanicMakeSlice
       else if keyLen < 0 \<or> int (length dk) < keyLen then Inl PanicSliceBounds
       else Inr (take (nat keyLen) dk))"
    by (simp only: pbkdf2_Key_def Let_def hSize_sha256_New of_nat_numeral nb blocks)
  then have "pbkdf2_Key password salt iter keyLen ?h = Inr (take (nat keyLen) dk)"
    using assms nb0 ge by simp
  then show "pbkdf2_Key password salt iter keyLen ?h =
           Inr (PBKDF2 (hmac ?h) 32 password salt (nat iter) (nat keyLen))"
    by (simp only: spec)
  show "length (PBKDF2 (hmac ?h) 32 password salt (nat iter) (nat keyLen)) = nat keyLen"
    using ge by (simp add: spec)
qed

lemma DeriveKey_32:
  "DeriveKey P password salt 32 = Inr (PBKDF2 (hmac (sha256_New P)) 32 password salt 4096 32)"
  "length (PBKDF2 (hmac (sha256_New P)) 32 password salt 4096 32) = 32"
  using pbkdf2_Key_sha256 [where keyLen = 32 and password = password and salt = salt
      and iter = 4096 and P = P]
  by (simp_all add: DeriveKey_def)

text \<open>
  A negative \<open>keyLen\<close> is not the length of a key; the library call panics on it, in the
  final slice expression.
\<close>

lemma DeriveKey_negative: "DeriveKey P password salt (- 1) = Inl PanicSliceBounds"
  by (simp add: DeriveKey_def pbkdf2_Key_def Let_def go_div_def pbkdf2_blocks.simps)



section \<open>Properties of the authenticated encryption\<close>

lemma length_ctr_xor [simp]: "length (ctr_xor P key nonce m) = length m"
  by (simp add: ctr_xor_def)

lemma ctr_xor_involution [simp]: "ctr_xor P key nonce (ctr_xor P key nonce m) = m"
  by (rule nth_equalityI) (simp_all add: ctr_xor_def xor.assoc)

lemma new_AES_GCM:
  "length key = 16 \<or> length key = 24 \<or> length key = 32 \<Longrightarrow>
   aes_NewCipher key = Inr \<lparr> block_key = key, BlockSize = 16 \<rparr> \<and>
   cipher_NewGCM \<lparr> block_key = key, BlockSize = 16 \<rparr> = Inr (AES_GCM key)"
  by (simp add: aes_NewCipher_def cipher_NewGCM_def AES_GCM_def)

lemma AES_GCM_sel [simp]:
  "aead_key (AES_GCM key) = key" "NonceSize (AES_GCM key) = 12" "Overhead (AES_GCM key) = 16"
  by (simp_all add: AES_GCM_def)

text \<open>\<open>Encrypt\<close> and \<open>Decrypt\<close> with their library calls evaluated.\<close>

lemma Encrypt_eq:
  "Encrypt P r src key =
     (if length key \<noteq> 16 \<and> length key \<noteq> 24 \<and> length key \<noteq> 32
        then (Inl (KeySizeError (length key)), r)
      else if length r < 12 then (Inl (if r = [] then EOF else ErrUnexpectedEOF), [])
      else (Inr (take 12 r @ ctr_xor P key (take 12 r) src @
                 be_bytes (gcm_tag P key (take 12 r) [] (ctr_xor P key (take 12 r) src))),
            drop 12 r))"
proof (cases "length key = 16 \<or> length key = 24 \<or> length key = 32")
  case False
  then show ?thesis by (simp add: Encrypt_def aes_NewCipher_def)
next
  case True
  from new_AES_GCM [OF True] True show ?thesis
    by (auto simp: Encrypt_def io_ReadFull_def Seal_def Let_def)
qed

lemma Decrypt_eq:
  "Decrypt P src key =
     (if length key \<noteq> 16 \<and> length key \<noteq> 24 \<and> length key \<noteq> 32
        then Inl (KeySizeError (length key))
      else if length src < 12 then Inl ErrCiphertextTooShort
      else Open P (AES_GCM key) [] (take 12 src) (drop 12 src) [])"
proof (cases "length key = 16 \<or> length key = 24 \<or> length key = 32")
  case False
  then show ?thesis by (simp add: Decrypt_def aes_NewCipher_def)
next
  case True
  from new_AES_GCM [OF True] True show ?thesis
    by (auto simp: Decrypt_def Let_def)
qed

lemma Open_eq:
  "length nonce = 12 \<Longrightarrow>
   Open P (AES_GCM key) [] nonce c [] =
     (if tag_verifies P (AES_GCM key) nonce c [] then
        Inr (ctr_xor P key nonce (take (length c - 16) c))
      else Inl ErrOpen)"
  by (simp add: Open_def)

lemma tag_verifies_sealed:
  "tag_verifies P (AES_GCM key) nonce (c @ be_bytes (gcm_tag P key nonce aad c)) aad"
  by (simp add: tag_verifies_def)

text \<open>What \<open>Encrypt\<close> returns, \<open>Decrypt\<close> opens with the same key.\<close>

lemma Decrypt_Encrypt:
  assumes "fst (Encrypt P r src key) = Inr blob"
  shows "Decrypt P blob key = Inr src"
proof -
  from assms have key: "\<not> (length key \<noteq> 16 \<and> length key \<noteq> 24 \<and> length key \<noteq> 32)"
    and r: "\<not> length r < 12"
    by (auto simp: Encrypt_eq split: if_splits)
  let ?n = "take 12 r"
  let ?c = "ctr_xor P key ?n src"
  let ?t = "be_bytes (gcm_tag P key ?n [] ?c)"
  from assms key r have blob: "blob = ?n @ ?c @ ?t"
    by (simp add: Encrypt_eq)
  have n: "length ?n = 12" using r by simp
  have tk: "take 12 blob = ?n" and dr: "drop 12 blob = ?c @ ?t"
    using n by (simp_all add: blob)
  have "Decrypt P blob key = Open P (AES_GCM key) [] ?n (?c @ ?t) []"
    using key n by (auto simp: Decrypt_eq tk dr blob)
  also have "\<dots> = Inr src"
    using n by (simp add: Open_eq tag_verifies_sealed)
  finally show ?thesis .
qed

lemma sealed_example:
  "fst (Encrypt toy_primitives (replicate 12 9) [1, 2, 3] key32) =
     Inr (replicate 12 9 @ [141, 143, 141] @ replicate 14 0 @ [2, 53])"
  by code_simp

text \<open>
  Claim C7, as the code has it. \<open>Encrypt\<close> fails exactly when the key is not 16, 24 or
  32 bytes long, so that \<open>aes.NewCipher\<close> refuses it with a \<open>KeySizeError\<close>, or when
  \<open>rand.Reader\<close> does not deliver the 12 bytes of the nonce. With a key of 32 bytes and
  a reader that delivers the nonce it returns no error.
\<close>

theorem Encrypt_failure_causes:
  "((\<exists>err. fst (Encrypt P r src key) = Inl err) =
      ((length key \<noteq> 16 \<and> length key \<noteq> 24 \<and> length key \<noteq> 32) \<or> length r < 12)) \<and>
   (length key \<noteq> 16 \<and> length key \<noteq> 24 \<and> length key \<noteq> 32 \<longrightarrow>
      fst (Encrypt P r src key) = Inl (KeySizeError (length key))) \<and>
   (length key = 32 \<and> 12 \<le> length r \<longrightarrow> (\<exists>blob. fst (Encrypt P r src key) = Inr blob))"
  by (auto simp: Encrypt_eq)

theorem Encrypt_failure_causes_witness:
  "length [1, 2, 3, 4, 5 :: byte] \<noteq> 16 \<and> length [1, 2, 3, 4, 5 :: byte] \<noteq> 24 \<and>
   length [1, 2, 3, 4, 5 :: byte] \<noteq> 32 \<and>
   fst (Encrypt toy_primitives (replicate 12 9) [1, 2, 3] [1, 2, 3, 4, 5]) = Inl (KeySizeError 5) \<and>
   length key32 = 32 \<and> 12 \<le> length (replicate 12 9 :: bytes) \<and>
   (\<exists>blob. fst (Encrypt toy_primitives (replicate 12 9) [1, 2, 3] key32) = Inr blob)"
  using Encrypt_failure_causes [where P = toy_primitives and r = "replicate 12 9"
      and src = "[1, 2, 3]" and key = "[1, 2, 3, 4, 5]"]
    Encrypt_failure_causes [where P = toy_primitives and r = "replicate 12 9"
      and src = "[1, 2, 3]" and key = key32]
  by (simp add: key32_def)

text \<open>
  The claim as stated fails: with a key of 32 bytes and a reader that delivers nothing,
  \<open>Encrypt\<close> returns the error of \<open>io.ReadFull\<close>.
\<close>

theorem Encrypt_random_source_fails:
  "length key32 = 32 \<and> fst (Encrypt toy_primitives [] [1, 2, 3] key32) = Inl EOF"
  by (simp add: Encrypt_eq key32_def)

text \<open>
  Claim C10. For every plaintext and every key of 32 bytes, when \<open>rand.Reader\<close> delivers
  the nonce, \<open>Encrypt\<close> returns the 12 bytes of the nonce, followed by a ciphertext as
  long as the plaintext, followed by the 16 bytes of the tag: 28 bytes more than the
  plaintext. \<open>Decrypt\<close> passes the first 12 bytes of its input to \<open>Open\<close> as the nonce and
  the rest as the sealed message.
\<close>

theorem Encrypt_blob_layout:
  "length key = 32 \<Longrightarrow> 12 \<le> length r \<Longrightarrow>
   (\<exists>nonce c tag.
      fst (Encrypt P r src key) = Inr (nonce @ c @ tag) \<and>
      nonce = take 12 r \<and> c = ctr_xor P key nonce src \<and>
      tag = be_bytes (gcm_tag P key nonce [] c) \<and>
      length nonce = 12 \<and> length c = length src \<and> length tag = 16 \<and>
      length (nonce @ c @ tag) = length src + 28) \<and>
   (12 \<le> length blob \<longrightarrow>
      Decrypt P blob key = Open P (AES_GCM key) [] (take 12 blob) (drop 12 blob) [] \<and>
      length (take 12 blob) = 12)"
  by (simp add: Encrypt_eq Decrypt_eq)

theorem Encrypt_blob_layout_witness:
  "length key32 = 32 \<and> 12 \<le> length (replicate 12 9 :: bytes) \<and>
   (\<exists>nonce c tag.
      fst (Encrypt toy_primitives (replicate 12 9) [1, 2, 3] key32) = Inr (nonce @ c @ tag) \<and>
      nonce = take 12 (replicate 12 9) \<and> c = ctr_xor toy_primitives key32 nonce [1, 2, 3] \<and>
      tag = be_bytes (gcm_tag toy_primitives key32 nonce [] c) \<and>
      length nonce = 12 \<and> length c = length [1, 2, 3 :: byte] \<and> length tag = 16 \<and>
      length (nonce @ c @ tag) = length [1, 2, 3 :: byte] + 28) \<and>
   Decrypt toy_primitives (replicate 12 9 @ [141, 143, 141] @ replicate 14 0 @ [2, 53]) key32 =
     Open toy_primitives (AES_GCM key32) []
       (take 12 (replicate 12 9 @ [141, 143, 141] @ replicate 14 0 @ [2, 53]))
       (drop 12 (replicate 12 9 @ [141, 143, 141] @ replicate 14 0 @ [2, 53])) []"
proof -
  have k: "length key32 = 32" by (simp add: key32_def)
  have r: "12 \<le> length (replicate 12 9 :: bytes)" by simp
  have b: "12 \<le> length (replicate 12 9 @ [141, 143, 141] @ replicate 14 0 @ [2, 53 :: byte])"
    by simp
  note t = Encrypt_blob_layout [OF k r, where P = toy_primitives and src = "[1, 2, 3]"
      and blob = "replicate 12 9 @ [141, 143, 141] @ replicate 14 0 @ [2, 53]"]
  from t have t1: "\<exists>nonce c tag.
      fst (Encrypt toy_primitives (replicate 12 9) [1, 2, 3] key32) = Inr (nonce @ c @ tag) \<and>
      nonce = take 12 (replicate 12 9) \<and> c = ctr_xor toy_primitives key32 nonce [1, 2, 3] \<and>
      tag = be_bytes (gcm_tag toy_primitives key32 nonce [] c) \<and>
      length nonce = 12 \<and> length c = length [1, 2, 3 :: byte] \<and> length tag = 16 \<and>
      length (nonce @ c @ tag) = length [1, 2, 3 :: byte] + 28"
    by (rule conjunct1)
  from t b have t2: "Decrypt toy_primitives
      (replicate 12 9 @ [141, 143, 141] @ replicate 14 0 @ [2, 53]) key32 =
     Open toy_primitives (AES_GCM key32) []
       (take 12 (replicate 12 9 @ [141, 143, 141] @ replicate 14 0 @ [2, 53]))
       (drop 12 (replicate 12 9 @ [141, 143, 141] @ replicate 14 0 @ [2, 53])) []"
    by blast
  from k r t1 t2 show ?thesis by (intro conjI)
qed

text \<open>
  Claim C2, as the code has it. For every key of 32 bytes and every input, \<open>Decrypt\<close>
  fails exactly when the input is shorter than the 12 bytes of a nonce or the tag of the
  rest does not verify. The two causes are reported differently: the error is
  \<open>ErrCiphertextTooShort\<close> exactly for an input shorter than the nonce, and it is the one
  error \<open>ErrOpen\<close> of the AEAD for every other failure, whether the key is wrong or the
  data are corrupted.
\<close>

theorem Decrypt_failure_causes:
  "length key = 32 \<Longrightarrow>
   ((\<exists>err. Decrypt P blob key = Inl err) =
      (length blob < 12 \<or>
       \<not> tag_verifies P (AES_GCM key) (take 12 blob) (drop 12 blob) [])) \<and>
   ((Decrypt P blob key = Inl ErrCiphertextTooShort) = (length blob < 12)) \<and>
   ((Decrypt P blob key = Inl ErrOpen) =
      (12 \<le> length blob \<and>
       \<not> tag_verifies P (AES_GCM key) (take 12 blob) (drop 12 blob) []))"
  by (auto simp: Decrypt_eq Open_eq)

text \<open>
  A sealed message opened with another key of 32 bytes, and the same message with one
  byte of the ciphertext changed, opened with the right key: both fail with \<open>ErrOpen\<close>.
\<close>

lemma wrong_key_example:
  "\<not> tag_verifies toy_primitives (AES_GCM (replicate 32 2)) (replicate 12 9)
       ([141, 143, 141] @ replicate 14 0 @ [2, 53]) []"
  by code_simp

lemma corrupted_example:
  "\<not> tag_verifies toy_primitives (AES_GCM key32) (replicate 12 9)
       ([141, 143, 140] @ replicate 14 0 @ [2, 53]) []"
  by code_simp

theorem Decrypt_failure_causes_witness:
  "length (replicate 32 2 :: bytes) = 32 \<and> length key32 = 32 \<and>
   Decrypt toy_primitives (replicate 12 9 @ [141, 143, 141] @ replicate 14 0 @ [2, 53])
     (replicate 32 2) = Inl ErrOpen \<and>
   Decrypt toy_primitives (replicate 12 9 @ [141, 143, 140] @ replicate 14 0 @ [2, 53])
     key32 = Inl ErrOpen \<and>
   Decrypt toy_primitives [9, 9, 9] key32 = Inl ErrCiphertextTooShort"
proof -
  have k: "length key32 = 32" by (simp add: key32_def)
  have k2: "length (replicate 32 2 :: bytes) = 32" by simp
  from Decrypt_failure_causes [OF k2, where P = toy_primitives
      and blob = "replicate 12 9 @ [141, 143, 141] @ replicate 14 0 @ [2, 53]"]
    Decrypt_failure_causes [OF k, where P = toy_primitives
      and blob = "replicate 12 9 @ [141, 143, 140] @ replicate 14 0 @ [2, 53]"]
    Decrypt_failure_causes [OF k, where P = toy_primitives and blob = "[9, 9, 9]"]
    wrong_key_example corrupted_example k
  show ?thesis by simp
qed

text \<open>
  The claim as stated fails: an input of 11 bytes and an input of 12 bytes, which holds
  a nonce and no tag, are both refused, with two different errors.
\<close>

theorem Decrypt_too_short_distinguished:
  "length key32 = 32 \<and>
   Decrypt toy_primitives (replicate 11 0) key32 = Inl ErrCiphertextTooShort \<and>
   Decrypt toy_primitives (replicate 12 0) key32 = Inl ErrOpen \<and>
   ErrCiphertextTooShort \<noteq> ErrOpen"
  by (simp add: Decrypt_eq Open_eq tag_verifies_def key32_def)

section \<open>Properties of the persistence\<close>

lemma WriteCBORSec_eq:
  "WriteCBORSec P w filename data password salt =
     (case cbor_Encode P data of
        Inl err \<Rightarrow> (Some err, w)
      | Inr buf \<Rightarrow>
          (case Encrypt P (rand_Reader w) buf
                  (PBKDF2 (hmac (sha256_New P)) 32 (bytes_of_string password) salt 4096 32) of
             (Inl err, rest) \<Rightarrow> (Some err, w\<lparr>rand_Reader := rest\<rparr>)
           | (Inr encryptedData, rest) \<Rightarrow>
               os_WriteFile (w\<lparr>rand_Reader := rest\<rparr>) filename encryptedData))"
  by (simp add: WriteCBORSec_def DeriveKey_32 cong: sum.case_cong)

lemma ReadCBORSec_eq:
  "ReadCBORSec P w filename password salt =
     (case os_ReadFile w filename of
        Inl err \<Rightarrow> Inl err
      | Inr encryptedData \<Rightarrow>
          (case Decrypt P encryptedData
                  (PBKDF2 (hmac (sha256_New P)) 32 (bytes_of_string password) salt 4096 32) of
             Inl err \<Rightarrow> Inl err
           | Inr data \<Rightarrow> cbor_Decode P data))"
  by (simp add: ReadCBORSec_def DeriveKey_32 cong: sum.case_cong)

text \<open>
  \<open>WriteCBORSec\<close> returns \<open>nil\<close> exactly when the encoder succeeds, \<open>rand.Reader\<close>
  delivers a nonce and the file can be written.
\<close>

lemma WriteCBORSec_ok_iff:
  "fst (WriteCBORSec P w filename data password salt) = None \<longleftrightarrow>
     (\<exists>buf. cbor_Encode P data = Inr buf) \<and> 12 \<le> length (rand_Reader w) \<and>
     filename \<notin> unwritable w"
  by (auto simp: WriteCBORSec_eq Encrypt_eq DeriveKey_32 os_WriteFile_def
           split: sum.splits prod.splits if_splits)

lemma WriteCBORSec_file:
  assumes "fst (WriteCBORSec P w filename data password salt) = None"
    and "cbor_Encode P data = Inr buf"
  shows "\<exists>blob.
           fst (Encrypt P (rand_Reader w) buf
                  (PBKDF2 (hmac (sha256_New P)) 32 (bytes_of_string password) salt 4096 32)) =
             Inr blob \<and>
           files (snd (WriteCBORSec P w filename data password salt)) filename = Some blob"
  using assms
  by (auto simp: WriteCBORSec_eq os_WriteFile_def split: sum.splits prod.splits if_splits)



end
